theory Spec2Isabelle
  imports Main "HOL-Library.Word"
begin

unbundle bit_operations_syntax

section \<open>Values of the JavaScript runtime\<close>

text \<open>
  A \<open>Buffer\<close> is a list of bytes. A JavaScript string is a list of UTF-16 code units:
  \<open>length\<close>, \<open>padEnd\<close> and \<open>slice\<close> count code units, not bytes and not code
  points. Diagnostic text (error messages, console labels) is kept as HOL strings.
\<close>

type_synonym byte = "8 word"
type_synonym buffer = "byte list"
type_synonym char16 = "16 word"
type_synonym jsstring = "char16 list"

definition ascii :: "string \<Rightarrow> jsstring" where
  "ascii s = map (\<lambda>c. of_nat (of_char c)) s"

text \<open>
  An error object: the name of its constructor, its message and, for the errors of
  Node's own modules, its \<open>code\<close> property.
\<close>

datatype js_error = JsError (err_name: string) (err_message: string) (err_code: "string option")

definition new_Error :: "string \<Rightarrow> js_error" where
  "new_Error msg = JsError ''Error'' msg None"

subsection \<open>\<open>Buffer.from(s, "utf8")\<close>\<close>

definition is_high_surrogate :: "char16 \<Rightarrow> bool" where
  "is_high_surrogate u = (0xD800 \<le> u \<and> u \<le> 0xDBFF)"

definition is_low_surrogate :: "char16 \<Rightarrow> bool" where
  "is_low_surrogate u = (0xDC00 \<le> u \<and> u \<le> 0xDFFF)"

definition utf8_of_codepoint :: "nat \<Rightarrow> buffer" where
  "utf8_of_codepoint cp =
     (if cp < 0x80 then [of_nat cp]
      else if cp < 0x800 then [of_nat (0xC0 + cp div 64), of_nat (0x80 + cp mod 64)]
      else if cp < 0x10000 then
        [of_nat (0xE0 + cp div 4096), of_nat (0x80 + cp div 64 mod 64), of_nat (0x80 + cp mod 64)]
      else
        [of_nat (0xF0 + cp div 262144), of_nat (0x80 + cp div 4096 mod 64),
         of_nat (0x80 + cp div 64 mod 64), of_nat (0x80 + cp mod 64)])"

text \<open>U+FFFD, written for a surrogate that has no partner.\<close>

definition replacement_utf8 :: buffer where
  "replacement_utf8 = [0xEF, 0xBF, 0xBD]"

fun utf8_encode :: "jsstring \<Rightarrow> buffer" where
  "utf8_encode [] = []"
| "utf8_encode [u] =
     (if is_high_surrogate u \<or> is_low_surrogate u then replacement_utf8
      else utf8_of_codepoint (unat u))"
| "utf8_encode (u # v # rest) =
     (if is_high_surrogate u then
        (if is_low_surrogate v then
           utf8_of_codepoint (0x10000 + (unat u - 0xD800) * 1024 + (unat v - 0xDC00))
             @ utf8_encode rest
         else replacement_utf8 @ utf8_encode (v # rest))
      else if is_low_surrogate u then replacement_utf8 @ utf8_encode (v # rest)
      else utf8_of_codepoint (unat u) @ utf8_encode (v # rest))"

subsection \<open>\<open>String.prototype.padEnd\<close> and \<open>slice\<close>\<close>

text \<open>
  \<open>s.padEnd(n, c)\<close> with a one-character filler: \<open>s\<close> itself when it already has
  \<open>n\<close> code units, otherwise \<open>s\<close> followed by fillers up to \<open>n\<close> code units.
  \<open>s.slice(0, n)\<close> is the first \<open>n\<close> code units.
\<close>

definition padEnd :: "jsstring \<Rightarrow> nat \<Rightarrow> char16 \<Rightarrow> jsstring" where
  "padEnd s n c = s @ replicate (n - length s) c"

definition slice0 :: "jsstring \<Rightarrow> nat \<Rightarrow> jsstring" where
  "slice0 s n = take n s"

subsection \<open>\<open>Number.prototype.toString\<close> on integers\<close>

definition digit_char :: "nat \<Rightarrow> char16" where
  "digit_char d = of_nat (48 + d)"

fun nat_toString :: "nat \<Rightarrow> jsstring" where
  "nat_toString n =
     (if n < 10 then [digit_char n] else nat_toString (n div 10) @ [digit_char (n mod 10)])"

declare nat_toString.simps [simp del]

definition int_toString :: "int \<Rightarrow> jsstring" where
  "int_toString i = (if i < 0 then 0x2D # nat_toString (nat (- i)) else nat_toString (nat i))"

definition is_ascii_digit :: "char16 \<Rightarrow> bool" where
  "is_ascii_digit c = (0x30 \<le> c \<and> c \<le> 0x39)"

subsection \<open>JSON values and \<open>JSON.stringify\<close>\<close>

text \<open>
  A JSON-serializable value. Numbers are doubles; their type \<open>'n\<close> and their JSON text
  are left to the runtime (\<open>number_to_json\<close> below). An object is the list of its own
  enumerable properties in property order.
\<close>

datatype 'n json =
    JNull
  | JBool bool
  | JNum 'n
  | JStr jsstring
  | JArr "'n json list"
  | JObj "(jsstring \<times> 'n json) list"

type_synonym 'n properties = "(jsstring \<times> 'n json) list"

definition hex_digit :: "nat \<Rightarrow> char16" where
  "hex_digit d = (if d < 10 then of_nat (48 + d) else of_nat (87 + d))"

definition unicode_escape :: "char16 \<Rightarrow> jsstring" where
  "unicode_escape u =
     [0x5C, 0x75, hex_digit (unat u div 4096), hex_digit (unat u div 256 mod 16),
      hex_digit (unat u div 16 mod 16), hex_digit (unat u mod 16)]"

definition escape_unit :: "char16 \<Rightarrow> jsstring" where
  "escape_unit u =
     (if u = 0x08 then [0x5C, 0x62]
      else if u = 0x09 then [0x5C, 0x74]
      else if u = 0x0A then [0x5C, 0x6E]
      else if u = 0x0C then [0x5C, 0x66]
      else if u = 0x0D then [0x5C, 0x72]
      else if u = 0x22 then [0x5C, 0x22]
      else if u = 0x5C then [0x5C, 0x5C]
      else if u < 0x20 then unicode_escape u
      else [u])"

fun quote_units :: "jsstring \<Rightarrow> jsstring" where
  "quote_units [] = []"
| "quote_units [u] =
     (if is_high_surrogate u \<or> is_low_surrogate u then unicode_escape u else escape_unit u)"
| "quote_units (u # v # rest) =
     (if is_high_surrogate u then
        (if is_low_surrogate v then u # v # quote_units rest
         else unicode_escape u @ quote_units (v # rest))
      else if is_low_surrogate u then unicode_escape u @ quote_units (v # rest)
      else escape_unit u @ quote_units (v # rest))"

definition QuoteJSONString :: "jsstring \<Rightarrow> jsstring" where
  "QuoteJSONString s = [0x22] @ quote_units s @ [0x22]"

fun join_comma :: "jsstring list \<Rightarrow> jsstring" where
  "join_comma [] = []"
| "join_comma [x] = x"
| "join_comma (x # y # ys) = x @ [0x2C] @ join_comma (y # ys)"

fun JSON_stringify :: "('n \<Rightarrow> jsstring) \<Rightarrow> 'n json \<Rightarrow> jsstring" where
  "JSON_stringify num JNull = ascii ''null''"
| "JSON_stringify num (JBool b) = (if b then ascii ''true'' else ascii ''false'')"
| "JSON_stringify num (JNum n) = num n"
| "JSON_stringify num (JStr s) = QuoteJSONString s"
| "JSON_stringify num (JArr xs) =
     [0x5B] @ join_comma (map (JSON_stringify num) xs) @ [0x5D]"
| "JSON_stringify num (JObj ps) =
     [0x7B] @ join_comma (map (\<lambda>p. QuoteJSONString (fst p) @ [0x3A] @ JSON_stringify num (snd p)) ps)
       @ [0x7D]"

text \<open>
  Defining a property on an object: an existing key keeps its place in the property
  order and takes the new value, a new key goes to the end.
\<close>

fun set_property :: "'n properties \<Rightarrow> jsstring \<Rightarrow> 'n json \<Rightarrow> 'n properties" where
  "set_property [] k v = [(k, v)]"
| "set_property (p # ps) k v = (if fst p = k then (k, v) # ps else p # set_property ps k v)"

fun get_property :: "'n properties \<Rightarrow> jsstring \<Rightarrow> 'n json option" where
  "get_property [] k = None"
| "get_property (p # ps) k = (if fst p = k then Some (snd p) else get_property ps k)"

subsection \<open>Base64: \<open>buf.toString("base64")\<close> and \<open>Buffer.from(s, "base64")\<close>\<close>

definition b64_char :: "nat \<Rightarrow> char16" where
  "b64_char n =
     (if n < 26 then of_nat (65 + n)
      else if n < 52 then of_nat (97 + (n - 26))
      else if n < 62 then of_nat (48 + (n - 52))
      else if n = 62 then 0x2B
      else 0x2F)"

fun base64_encode :: "buffer \<Rightarrow> jsstring" where
  "base64_encode [] = []"
| "base64_encode [a] =
     [b64_char (unat a div 4), b64_char (unat a mod 4 * 16), 0x3D, 0x3D]"
| "base64_encode [a, b] =
     [b64_char (unat a div 4), b64_char (unat a mod 4 * 16 + unat b div 16),
      b64_char (unat b mod 16 * 4), 0x3D]"
| "base64_encode (a # b # c # rest) =
     [b64_char (unat a div 4), b64_char (unat a mod 4 * 16 + unat b div 16),
      b64_char (unat b mod 16 * 4 + unat c div 64), b64_char (unat c mod 64)]
       @ base64_encode rest"

text \<open>
  Node's decoder is lenient and never throws: it reads every code unit through its low
  byte, accepts the standard and the URL-safe alphabet, skips every other character, and
  stops at the first \<open>=\<close>.
\<close>

definition low_byte :: "char16 \<Rightarrow> char16" where
  "low_byte c = c AND 0xFF"

definition unbase64 :: "char16 \<Rightarrow> nat option" where
  "unbase64 c =
     (if 0x41 \<le> c \<and> c \<le> 0x5A then Some (unat c - 65)
      else if 0x61 \<le> c \<and> c \<le> 0x7A then Some (unat c - 97 + 26)
      else if 0x30 \<le> c \<and> c \<le> 0x39 then Some (unat c - 48 + 52)
      else if c = 0x2B \<or> c = 0x2D then Some 62
      else if c = 0x2F \<or> c = 0x5F then Some 63
      else None)"

fun decode_sextets :: "nat list \<Rightarrow> buffer" where
  "decode_sextets (a # b # c # d # rest) =
     [of_nat (a * 4 + b div 16), of_nat (b mod 16 * 16 + c div 4), of_nat (c mod 4 * 64 + d)]
       @ decode_sextets rest"
| "decode_sextets [a, b, c] = [of_nat (a * 4 + b div 16), of_nat (b mod 16 * 16 + c div 4)]"
| "decode_sextets [a, b] = [of_nat (a * 4 + b div 16)]"
| "decode_sextets _ = []"

definition base64_decode :: "jsstring \<Rightarrow> buffer" where
  "base64_decode s =
     decode_sextets (List.map_filter unbase64 (takeWhile (\<lambda>c. c \<noteq> 0x3D) (map low_byte s)))"


section \<open>Primitives of the Node.js runtime\<close>

text \<open>
  The library functions the class calls are not part of the repository. Those whose
  inner working no property below depends on are taken as parameters: the AES-128 block
  encryption (key and block as 128-bit words), RSA-OAEP encryption under a PEM key,
  the inflation of a gzip member, UTF-8 decoding, \<open>JSON.parse\<close>, and the JSON text of
  a number. OAEP draws its seed inside OpenSSL, not from \<open>crypto.randomBytes\<close>;
  \<open>publicEncrypt\<close> stands for one such call, and nothing below compares two calls.
\<close>

record 'n runtime =
  aes_block :: "128 word \<Rightarrow> 128 word \<Rightarrow> 128 word"
  publicEncrypt :: "jsstring \<Rightarrow> buffer \<Rightarrow> js_error + buffer"
  inflate_member :: "buffer \<Rightarrow> js_error + buffer"
  utf8_decode :: "buffer \<Rightarrow> jsstring"
  JSON_parse :: "jsstring \<Rightarrow> js_error + 'n json"
  number_to_json :: "'n \<Rightarrow> jsstring"

subsection \<open>\<open>crypto.createCipheriv("aes-128-ctr", key, iv)\<close>\<close>

definition bytes_to_word128 :: "buffer \<Rightarrow> 128 word" where
  "bytes_to_word128 bs = foldl (\<lambda>acc b. push_bit 8 acc OR ucast b) 0 bs"

definition word128_to_bytes :: "128 word \<Rightarrow> buffer" where
  "word128_to_bytes w = map (\<lambda>i. ucast (drop_bit (8 * (15 - i)) w)) [0..<16]"

definition invalid_iv :: js_error where
  "invalid_iv = JsError ''TypeError'' ''Invalid initialization vector'' (Some ''ERR_CRYPTO_INVALID_IV'')"

definition invalid_key_length :: js_error where
  "invalid_key_length = JsError ''RangeError'' ''Invalid key length'' (Some ''ERR_CRYPTO_INVALID_KEYLEN'')"

text \<open>
  The cipher object holds the key and the initial counter block. Creating it checks
  the length of the initialization vector, then the length of the key. Decryption in
  counter mode is the same object: \<open>createDecipheriv\<close> does what \<open>createCipheriv\<close> does.
\<close>

definition createCipheriv :: "buffer \<Rightarrow> buffer \<Rightarrow> js_error + (128 word \<times> 128 word)" where
  "createCipheriv key iv =
     (if length iv \<noteq> 16 then Inl invalid_iv
      else if length key \<noteq> 16 then Inl invalid_key_length
      else Inr (bytes_to_word128 key, bytes_to_word128 iv))"

definition createDecipheriv :: "buffer \<Rightarrow> buffer \<Rightarrow> js_error + (128 word \<times> 128 word)" where
  "createDecipheriv key iv = createCipheriv key iv"

text \<open>
  The key stream: the encryptions of the counter block, of the counter block plus one,
  and so on; the counter is a 128-bit big-endian number and wraps around.
\<close>

fun ctr_keystream :: "(128 word \<Rightarrow> 128 word) \<Rightarrow> 128 word \<Rightarrow> nat \<Rightarrow> buffer" where
  "ctr_keystream E c 0 = []"
| "ctr_keystream E c (Suc n) = word128_to_bytes (E c) @ ctr_keystream E (c + 1) n"

text \<open>\<open>Buffer.concat([cipher.update(data), cipher.final()])\<close>\<close>

definition cipher_update_final :: "'n runtime \<Rightarrow> 128 word \<times> 128 word \<Rightarrow> buffer \<Rightarrow> buffer" where
  "cipher_update_final rt cipher data =
     map2 (XOR) data
       (ctr_keystream (aes_block rt (fst cipher)) (snd cipher) ((length data + 15) div 16))"

subsection \<open>\<open>zlib.gunzip\<close>\<close>

definition zlib_error :: "string \<Rightarrow> string \<Rightarrow> js_error" where
  "zlib_error msg code = JsError ''Error'' msg (Some code)"

text \<open>
  The stream must start with the two magic bytes of gzip; what follows them is the
  runtime's work.
\<close>

definition gunzip :: "'n runtime \<Rightarrow> buffer \<Rightarrow> js_error + buffer" where
  "gunzip rt bs =
     (if length bs < 2 then Inl (zlib_error ''unexpected end of file'' ''Z_BUF_ERROR'')
      else if take 2 bs \<noteq> [0x1F, 0x8B] then Inl (zlib_error ''incorrect header check'' ''Z_DATA_ERROR'')
      else inflate_member rt bs)"

section \<open>The class \<open>PayloadEncryption\<close>\<close>

text \<open>
  The model follows \<^verbatim>\<open>src/services/payloadEncryption.ts\<close> function by function, under
  the names of the source. Every \<open>await\<close> there is sequential, so a method is a function
  from the state before the call to its result and the state after it; a \<open>throw\<close> is
  the result \<open>Inl\<close>, and a \<open>catch\<close> that logs and rethrows adds a line to the
  console and passes the same error on.
\<close>

record EncryptedPayload =
  ctr :: jsstring
  et_payload :: jsstring

record EncryptionMetadata =
  counter :: buffer
  aesKey :: jsstring
  timestamp :: jsstring

record AESEncryptionResult =
  result_counter :: buffer
  encrypted :: buffer

text \<open>
  The state a call runs in: the two fields of the instance, and what the instance
  reads and writes around it: the heap of plain objects (an object reference is an
  index into it), the clock read by \<open>Date.now()\<close> in milliseconds, the output of
  the random generator with the number of bytes drawn so far, and the lines written by
  \<open>console.error\<close>.
\<close>

record 'n state =
  rsaPublicKeyPem :: jsstring
  lastEncryptionMetadata :: "EncryptionMetadata option"
  heap :: "'n properties list"
  date_now :: int
  random_source :: "nat \<Rightarrow> byte"
  random_drawn :: nat
  console :: "(string \<times> js_error) list"

definition constructor :: "jsstring \<Rightarrow> 'n state \<Rightarrow> 'n state" where
  "constructor config_rsaPublicKeyPem s =
     s\<lparr>rsaPublicKeyPem := config_rsaPublicKeyPem, lastEncryptionMetadata := None\<rparr>"

definition randomBytes :: "nat \<Rightarrow> 'n state \<Rightarrow> buffer \<times> 'n state" where
  "randomBytes n s =
     (map (random_source s) [random_drawn s ..< random_drawn s + n],
      s\<lparr>random_drawn := random_drawn s + n\<rparr>)"

definition console_error :: "string \<Rightarrow> js_error \<Rightarrow> 'n state \<Rightarrow> 'n state" where
  "console_error label e s = s\<lparr>console := console s @ [(label, e)]\<rparr>"

text \<open>
  \<open>{...src, k: v}\<close> allocates a new object, copies the properties of the object
  behind \<open>src\<close> into it one by one, then defines \<open>k\<close>; the result is the reference to
  the new object. Spreading something that is not an object copies nothing.
\<close>

definition object_at :: "'n state \<Rightarrow> nat \<Rightarrow> 'n properties" where
  "object_at s r = (if r < length (heap s) then heap s ! r else [])"

definition copy_properties :: "'n properties \<Rightarrow> 'n properties" where
  "copy_properties ps = foldl (\<lambda>obj p. set_property obj (fst p) (snd p)) [] ps"

definition spread_with :: "'n state \<Rightarrow> nat \<Rightarrow> jsstring \<Rightarrow> 'n json \<Rightarrow> nat \<times> 'n state" where
  "spread_with s src k v =
     (length (heap s),
      s\<lparr>heap := heap s @ [set_property (copy_properties (object_at s src)) k v]\<rparr>)"

definition hs_request_timestamp :: jsstring where
  "hs_request_timestamp = ascii ''hs_request_timestamp''"

subsection \<open>Utility functions\<close>

definition generateTimestamp :: "'n state \<Rightarrow> jsstring" where
  "generateTimestamp s = int_toString (date_now s div 1000)"

definition normalizeAESKey :: "jsstring \<Rightarrow> buffer" where
  "normalizeAESKey keyString = utf8_encode (slice0 (padEnd keyString 16 0x2A) 16)"

definition bytesToString :: "'n runtime \<Rightarrow> buffer \<Rightarrow> jsstring" where
  "bytesToString rt buffer = utf8_decode rt buffer"

text \<open>
  The normalisation as the specification words it: encode as UTF-8, pad the bytes with
  the padding byte to at least 16, keep the first 16 bytes.
\<close>

definition normalize_spec :: "jsstring \<Rightarrow> buffer" where
  "normalize_spec secret =
     (let bytes = utf8_encode secret
      in take 16 (bytes @ replicate (16 - length bytes) 0x2A))"

subsection \<open>Encryption functions\<close>

datatype 'n aes_data = BufferData buffer | StringData jsstring | ObjectData "'n json"

definition encryptPayloadAES ::
  "'n runtime \<Rightarrow> 'n state \<Rightarrow> 'n aes_data \<Rightarrow> jsstring \<Rightarrow> (js_error + AESEncryptionResult) \<times> 'n state" where
  "encryptPayloadAES rt s data aesKeyString =
     (let dataBuffer =
            (case data of
               BufferData b \<Rightarrow> b
             | StringData str \<Rightarrow> utf8_encode str
             | ObjectData obj \<Rightarrow> utf8_encode (JSON_stringify (number_to_json rt) obj));
          aesKey' = normalizeAESKey aesKeyString;
          (counter', s1) = randomBytes 16 s
      in case createCipheriv aesKey' counter' of
           Inl e \<Rightarrow> (Inl e, s1)
         | Inr cipher \<Rightarrow>
             (Inr \<lparr>result_counter = counter',
                   encrypted = cipher_update_final rt cipher dataBuffer\<rparr>, s1))"

definition encryptCounterRSA :: "'n runtime \<Rightarrow> 'n state \<Rightarrow> buffer \<Rightarrow> js_error + buffer" where
  "encryptCounterRSA rt s counter' =
     (if rsaPublicKeyPem s = [] then
        Inl (new_Error ''RSA public key is required for counter encryption'')
      else publicEncrypt rt (rsaPublicKeyPem s) counter')"

definition encryptRequest ::
  "'n runtime \<Rightarrow> 'n state \<Rightarrow> nat \<Rightarrow> jsstring \<Rightarrow> (js_error + EncryptedPayload) \<times> 'n state" where
  "encryptRequest rt s requestData aesKeyString =
     (let timestamp' = generateTimestamp s;
          (payloadWithTimestamp, s1) =
             spread_with s requestData hs_request_timestamp (JStr timestamp');
          jsonString = JSON_stringify (number_to_json rt) (JObj (object_at s1 payloadWithTimestamp))
      in case encryptPayloadAES rt s1 (StringData jsonString) aesKeyString of
           (Inl e, s2) \<Rightarrow> (Inl e, console_error ''Request encryption failed:'' e s2)
         | (Inr aesResult, s2) \<Rightarrow>
             (case encryptCounterRSA rt s2 (result_counter aesResult) of
                Inl e \<Rightarrow> (Inl e, console_error ''Request encryption failed:'' e s2)
              | Inr encryptedCounter \<Rightarrow>
                  (Inr \<lparr>ctr = base64_encode encryptedCounter,
                        et_payload = base64_encode (encrypted aesResult)\<rparr>,
                   s2\<lparr>lastEncryptionMetadata :=
                        Some \<lparr>counter = result_counter aesResult,
                              aesKey = aesKeyString,
                              timestamp = timestamp'\<rparr>\<rparr>)))"

subsection \<open>Decryption functions\<close>

definition decryptResponseAES ::
  "'n runtime \<Rightarrow> jsstring \<Rightarrow> jsstring \<Rightarrow> buffer \<Rightarrow> js_error + buffer" where
  "decryptResponseAES rt encryptedData aesKeyString counter' =
     (let encryptedBuffer = base64_decode encryptedData;
          aesKey' = normalizeAESKey aesKeyString
      in case createDecipheriv aesKey' counter' of
           Inl e \<Rightarrow> Inl e
         | Inr decipher \<Rightarrow> Inr (cipher_update_final rt decipher encryptedBuffer))"

definition decompressData ::
  "'n runtime \<Rightarrow> 'n state \<Rightarrow> buffer \<Rightarrow> (js_error + buffer) \<times> 'n state" where
  "decompressData rt s compressedData =
     (case gunzip rt compressedData of
        Inl e \<Rightarrow> (Inl e, console_error ''Gzip decompression failed:'' e s)
      | Inr decompressed \<Rightarrow> (Inr decompressed, s))"

definition no_metadata_error :: js_error where
  "no_metadata_error =
     new_Error ''No encryption metadata available. Must encrypt a request first.''"

definition decryptResponse ::
  "'n runtime \<Rightarrow> 'n state \<Rightarrow> jsstring \<Rightarrow> (js_error + 'n json) \<times> 'n state" where
  "decryptResponse rt s encryptedResponseData =
     (case lastEncryptionMetadata s of
        None \<Rightarrow> (Inl no_metadata_error, s)
      | Some metadata \<Rightarrow>
          (case decryptResponseAES rt encryptedResponseData (aesKey metadata) (counter metadata) of
             Inl e \<Rightarrow> (Inl e, console_error ''Response decryption failed:'' e s)
           | Inr decryptedData \<Rightarrow>
               (case decompressData rt s decryptedData of
                  (Inl e, s1) \<Rightarrow> (Inl e, console_error ''Response decryption failed:'' e s1)
                | (Inr decompressedData, s1) \<Rightarrow>
                    (case JSON_parse rt (bytesToString rt decompressedData) of
                       Inl e \<Rightarrow> (Inl e, console_error ''Response decryption failed:'' e s1)
                     | Inr responseJson \<Rightarrow> (Inr responseJson, s1)))))"

subsection \<open>Utility methods\<close>

definition getLastEncryptionMetadata :: "'n state \<Rightarrow> EncryptionMetadata option" where
  "getLastEncryptionMetadata s = lastEncryptionMetadata s"

definition clearEncryptionMetadata :: "'n state \<Rightarrow> 'n state" where
  "clearEncryptionMetadata s = s\<lparr>lastEncryptionMetadata := None\<rparr>"

section \<open>Names for the intermediate values of \<open>encryptRequest\<close>\<close>

text \<open>
  The values \<open>encryptRequest\<close> computes on its way, as functions of the state it
  starts in: the counter that \<open>randomBytes(16)\<close> returns, the object
  \<open>payloadWithTimestamp\<close>, the text \<open>jsonString\<close>, the cipher object, and the state
  after the object has been allocated and the counter drawn.
\<close>

definition next_counter :: "'n state \<Rightarrow> buffer" where
  "next_counter s = fst (randomBytes 16 s)"

definition payloadWithTimestamp_of :: "'n state \<Rightarrow> nat \<Rightarrow> 'n properties" where
  "payloadWithTimestamp_of s requestData =
     set_property (copy_properties (object_at s requestData)) hs_request_timestamp
       (JStr (generateTimestamp s))"

definition jsonString_of :: "'n runtime \<Rightarrow> 'n state \<Rightarrow> nat \<Rightarrow> jsstring" where
  "jsonString_of rt s requestData =
     JSON_stringify (number_to_json rt) (JObj (payloadWithTimestamp_of s requestData))"

definition after_encryption :: "'n state \<Rightarrow> nat \<Rightarrow> 'n state" where
  "after_encryption s requestData =
     s\<lparr>heap := heap s @ [payloadWithTimestamp_of s requestData],
       random_drawn := random_drawn s + 16\<rparr>"

definition request_cipher :: "jsstring \<Rightarrow> 'n state \<Rightarrow> 128 word \<times> 128 word" where
  "request_cipher aesKeyString s =
     (bytes_to_word128 (normalizeAESKey aesKeyString), bytes_to_word128 (next_counter s))"

section \<open>A concrete runtime and state\<close>

text \<open>
  For evaluating the model on concrete inputs. The block function and the RSA
  function of this runtime are small stand-ins; every general statement below holds for
  all runtimes.
\<close>

definition example_pem :: jsstring where
  "example_pem = ascii ''-----BEGIN PUBLIC KEY-----''"

definition example_secret :: jsstring where
  "example_secret = ascii ''abcdef''"

text \<open>The gzip stream of the empty text.\<close>

definition empty_gzip :: buffer where
  "empty_gzip = [0x1F, 0x8B, 0x08, 0, 0, 0, 0, 0, 0, 0x03, 0x03, 0, 0, 0, 0, 0, 0, 0, 0, 0]"

definition example_runtime :: "int runtime" where
  "example_runtime =
     \<lparr>aes_block = (\<lambda>k b. (k XOR b) * 3 + 1),
      publicEncrypt = (\<lambda>pem d. if pem = example_pem then Inr (rev d)
                        else Inl (JsError ''Error'' ''error:1E08010C:DECODER routines::unsupported''
                                    (Some ''ERR_OSSL_UNSUPPORTED''))),
      inflate_member = (\<lambda>bs. if bs = empty_gzip then Inr []
                         else Inl (zlib_error ''invalid block type'' ''Z_DATA_ERROR'')),
      utf8_decode = map ucast,
      JSON_parse = (\<lambda>s. if s = [] then Inl (JsError ''SyntaxError'' ''Unexpected end of JSON input'' None)
                      else Inr JNull),
      number_to_json = int_toString\<rparr>"

definition example_state :: "int state" where
  "example_state =
     \<lparr>rsaPublicKeyPem = example_pem,
      lastEncryptionMetadata = None,
      heap = [[(ascii ''lang'', JStr (ascii ''en_US'')), (hs_request_timestamp, JStr (ascii ''0'')),
               (ascii ''id_listing'', JArr [JStr (ascii ''X1''), JStr (ascii ''X2'')])]],
      date_now = 1700000000123,
      random_source = (\<lambda>i. of_nat (7 * i + 1)),
      random_drawn = 0,
      console = []\<rparr>"

definition example_context :: EncryptionMetadata where
  "example_context = \<lparr>counter = replicate 16 0, aesKey = example_secret, timestamp = ascii ''1700000000''\<rparr>"

definition example_state_no_key :: "int state" where
  "example_state_no_key = example_state\<lparr>rsaPublicKeyPem := []\<rparr>"

definition example_state_bad_key :: "int state" where
  "example_state_bad_key = example_state\<lparr>rsaPublicKeyPem := ascii ''not a key''\<rparr>"

definition example_state_with_context :: "int state" where
  "example_state_with_context = example_state\<lparr>lastEncryptionMetadata := Some example_context\<rparr>"

text \<open>
  A response whose decryption under \<open>example_context\<close> is the gzip stream of the
  empty text.
\<close>

definition example_empty_gzip_response :: jsstring where
  "example_empty_gzip_response =
     base64_encode (cipher_update_final example_runtime
       (bytes_to_word128 (normalizeAESKey example_secret), bytes_to_word128 (counter example_context))
       empty_gzip)"

section \<open>Key normalisation\<close>

lemma utf8_of_codepoint_ascii: "u < 0x80 \<Longrightarrow> utf8_of_codepoint (unat (u::char16)) = [ucast u]"
  unfolding utf8_of_codepoint_def by (simp add: word_less_nat_alt)

lemma not_surrogate_ascii:
  "u < 0x80 \<Longrightarrow> \<not> is_high_surrogate (u::char16) \<and> \<not> is_low_surrogate u"
  unfolding is_high_surrogate_def is_low_surrogate_def
  by (simp add: word_less_nat_alt word_le_nat_alt)

lemma utf8_encode_ascii:
  "\<forall>u\<in>set s. u < 0x80 \<Longrightarrow> utf8_encode s = map ucast s"
proof (induction s rule: utf8_encode.induct)
  case 1
  then show ?case by simp
next
  case (2 u)
  then have "u < 0x80" by simp
  then show ?case
    using not_surrogate_ascii[of u] utf8_of_codepoint_ascii[of u] by simp
next
  case (3 u v rest)
  then have u: "u < 0x80" and r: "\<forall>x\<in>set (v # rest). x < 0x80" by simp_all
  have "utf8_encode (v # rest) = map ucast (v # rest)"
    using 3 u r not_surrogate_ascii[of u] by blast
  then show ?case
    using not_surrogate_ascii[OF u] utf8_of_codepoint_ascii[OF u] by simp
qed

text \<open>
  On a secret of ASCII characters the code and the specification's wording agree, and
  the key has 16 bytes.
\<close>

lemma normalizeAESKey_ascii:
  assumes "\<forall>u\<in>set s. u < 0x80"
  shows "normalizeAESKey s = normalize_spec s"
proof -
  have p: "\<forall>u\<in>set (take 16 (padEnd s 16 0x2A)). u < 0x80"
    using assms by (auto simp: padEnd_def dest!: in_set_takeD)
  show ?thesis
    unfolding normalizeAESKey_def normalize_spec_def slice0_def Let_def
    by (simp only: utf8_encode_ascii[OF p] utf8_encode_ascii[OF assms])
       (simp add: padEnd_def take_map)
qed

lemma length_normalizeAESKey_ascii:
  assumes "\<forall>u\<in>set s. u < 0x80"
  shows "length (normalizeAESKey s) = 16"
proof -
  have p: "\<forall>u\<in>set (take 16 (padEnd s 16 0x2A)). u < 0x80"
    using assms by (auto simp: padEnd_def dest!: in_set_takeD)
  show ?thesis
    unfolding normalizeAESKey_def slice0_def
    by (simp only: utf8_encode_ascii[OF p]) (simp add: padEnd_def)
qed

lemma normalizeAESKey_abc:
  "normalizeAESKey (ascii ''abc'') = [0x61, 0x62, 0x63] @ replicate 13 0x2A"
  by code_simp

lemma normalizeAESKey_20_bytes:
  "normalizeAESKey (ascii ''0123456789abcdefghij'') = utf8_encode (ascii ''0123456789abcdef'')"
  by code_simp

text \<open>
  C1. The claim: for every secret string, \<open>normalizeAESKey\<close> is the reference
  normalisation (UTF-8 bytes, padded with the padding byte to at least 16 bytes, cut to
  the first 16 bytes), so its result always has exactly 16 bytes. The code pads and
  cuts the string by UTF-16 code units before it encodes: on the one-character secret
  U+00E9 it returns 17 bytes, where the reference normalisation returns 16.
\<close>

theorem normalizeAESKey_non_ascii:
  "normalizeAESKey [0xE9] = [0xC3, 0xA9] @ replicate 15 0x2A
   \<and> length (normalizeAESKey [0xE9]) = 17
   \<and> normalize_spec [0xE9] = [0xC3, 0xA9] @ replicate 14 0x2A"
  by code_simp

section \<open>Base64 round trip\<close>

lemma unat_of_nat16: "n < 65536 \<Longrightarrow> unat (of_nat n :: char16) = n"
  by (simp only: unat_of_nat) simp

lemma unat_b64_char:
  assumes "n < 64"
  shows "unat (b64_char n) =
    (if n < 26 then 65 + n else if n < 52 then 71 + n else if n < 62 then n - 4
     else if n = 62 then 43 else 47)"
  unfolding b64_char_def using assms by (simp add: unat_of_nat16 del: of_nat_add of_nat_diff)

lemma unbase64_unat:
  "unbase64 c =
     (if 65 \<le> unat c \<and> unat c \<le> 90 then Some (unat c - 65)
      else if 97 \<le> unat c \<and> unat c \<le> 122 then Some (unat c - 97 + 26)
      else if 48 \<le> unat c \<and> unat c \<le> 57 then Some (unat c - 48 + 52)
      else if unat c = 43 \<or> unat c = 45 then Some 62
      else if unat c = 47 \<or> unat c = 95 then Some 63
      else None)"
proof -
  have e: "\<And>k. (c = numeral k) = (unat c = unat (numeral k :: char16))"
    by (simp only: word_unat_eq_iff)
  show ?thesis
    unfolding unbase64_def by (simp add: word_le_nat_alt e)
qed

lemma unbase64_b64_char: "n < 64 \<Longrightarrow> unbase64 (b64_char n) = Some n"
  by (simp only: unbase64_unat unat_b64_char) (auto split: if_splits)

lemma unbase64_pad: "unbase64 0x3D = None"
  by (simp add: unbase64_def)

lemma b64_char_not_pad: "n < 64 \<Longrightarrow> b64_char n \<noteq> 0x3D"
  using unbase64_b64_char[of n] unbase64_pad by auto

lemma unat_byte_bound: "unat (a::byte) < 256"
  using unsigned_less[of a, where ?'a=nat] by simp

lemma div_bound: "(a::nat) < 256 \<Longrightarrow> a div 4 < 64 \<and> a div 16 < 16 \<and> a div 64 < 4"
  by (simp add: less_mult_imp_div_less)

lemma pack_div: "(y::nat) < m \<Longrightarrow> (x * m + y) div m = x"
  by simp

lemma pack_mod: "(y::nat) < m \<Longrightarrow> (x * m + y) mod m = y"
  by simp

lemma sextet_bounds:
  fixes a b :: nat
  assumes "a < 256" "b < 256"
  shows "a div 4 < 64" "a mod 4 * 16 + b div 16 < 64" "a mod 16 * 4 + b div 64 < 64" "a mod 64 < 64"
    "a mod 4 * 16 < 64" "a mod 16 * 4 < 64"
proof -
  have m4: "a mod 4 < 4" and m16: "a mod 16 < 16" by simp_all
  show "a div 4 < 64" using div_bound[OF assms(1)] by simp
  show "a mod 4 * 16 + b div 16 < 64" using m4 div_bound[OF assms(2)] by linarith
  show "a mod 16 * 4 + b div 64 < 64" using m16 div_bound[OF assms(2)] by linarith
  show "a mod 64 < 64" by simp
  show "a mod 4 * 16 < 64" using m4 by linarith
  show "a mod 16 * 4 < 64" using m16 by linarith
qed

lemma regroup:
  fixes a b c :: nat
  assumes "a < 256" "b < 256" "c < 256"
  shows "a div 4 * 4 + (a mod 4 * 16 + b div 16) div 16 = a"
    "(a mod 4 * 16 + b div 16) mod 16 * 16 + (b mod 16 * 4 + c div 64) div 4 = b"
    "(b mod 16 * 4 + c div 64) mod 4 * 64 + c mod 64 = c"
    "a div 4 * 4 + (a mod 4 * 16) div 16 = a"
    "(a mod 4 * 16 + b div 16) mod 16 * 16 + (b mod 16 * 4) div 4 = b"
proof -
  have b16: "b div 16 < 16" and c64: "c div 64 < 4"
    using div_bound[OF assms(2)] div_bound[OF assms(3)] by simp_all
  have e1: "(a mod 4 * 16 + b div 16) div 16 = a mod 4" by (rule pack_div[OF b16])
  have e2: "(a mod 4 * 16 + b div 16) mod 16 = b div 16" by (rule pack_mod[OF b16])
  have e3: "(b mod 16 * 4 + c div 64) div 4 = b mod 16" by (rule pack_div[OF c64])
  have e4: "(b mod 16 * 4 + c div 64) mod 4 = c div 64" by (rule pack_mod[OF c64])
  have e5: "(a mod 4 * 16) div 16 = a mod 4" and e6: "(b mod 16 * 4) div 4 = b mod 16" by simp_all
  show "a div 4 * 4 + (a mod 4 * 16 + b div 16) div 16 = a" by (simp only: e1) simp
  show "(a mod 4 * 16 + b div 16) mod 16 * 16 + (b mod 16 * 4 + c div 64) div 4 = b"
    by (simp only: e2 e3) simp
  show "(b mod 16 * 4 + c div 64) mod 4 * 64 + c mod 64 = c" by (simp only: e4) simp
  show "a div 4 * 4 + (a mod 4 * 16) div 16 = a" by (simp only: e5) simp
  show "(a mod 4 * 16 + b div 16) mod 16 * 16 + (b mod 16 * 4) div 4 = b"
    by (simp only: e2 e6) simp
qed

lemma low_byte_small: "unat c < 256 \<Longrightarrow> low_byte c = c"
proof -
  assume a: "unat c < 256"
  have m: "(0xFF :: char16) = mask 8" by (simp add: mask_eq_exp_minus_1)
  have "c < 2 ^ 8" using a by (simp add: word_less_nat_alt)
  then show ?thesis unfolding low_byte_def m by (rule less_mask_eq)
qed

lemma low_byte_b64_char: "n < 64 \<Longrightarrow> low_byte (b64_char n) = b64_char n"
  by (rule low_byte_small) (auto simp: unat_b64_char)

lemma low_byte_pad: "low_byte 0x3D = 0x3D"
  by (rule low_byte_small) simp

lemma low_byte_base64_encode: "map low_byte (base64_encode bs) = base64_encode bs"
proof (induction bs rule: base64_encode.induct)
  case 1
  show ?case by simp
next
  case (2 a)
  note bd = sextet_bounds[OF unat_byte_bound[of a] unat_byte_bound[of a]]
  show ?case by (simp add: low_byte_b64_char bd low_byte_pad)
next
  case (3 a b)
  note bd = sextet_bounds[OF unat_byte_bound[of a] unat_byte_bound[of b]]
  note bd' = sextet_bounds[OF unat_byte_bound[of b] unat_byte_bound[of b]]
  show ?case by (simp add: low_byte_b64_char bd bd' low_byte_pad)
next
  case (4 a b c rest)
  note bd = sextet_bounds[OF unat_byte_bound[of a] unat_byte_bound[of b]]
  note bd' = sextet_bounds[OF unat_byte_bound[of b] unat_byte_bound[of c]]
  note bd'' = sextet_bounds[OF unat_byte_bound[of c] unat_byte_bound[of c]]
  show ?case using 4 by (simp add: low_byte_b64_char bd bd' bd'')
qed

lemma sextets_of_chars:
  "n < 64 \<Longrightarrow>
   List.map_filter unbase64 (takeWhile (\<lambda>c. c \<noteq> 0x3D) (b64_char n # cs)) =
     n # List.map_filter unbase64 (takeWhile (\<lambda>c. c \<noteq> 0x3D) cs)"
  by (simp add: b64_char_not_pad unbase64_b64_char)

lemma sextets_of_pad:
  "List.map_filter unbase64 (takeWhile (\<lambda>c. c \<noteq> 0x3D) (0x3D # cs)) = []"
  by simp

lemma sextets_of_Nil:
  "List.map_filter unbase64 (takeWhile (\<lambda>c. c \<noteq> 0x3D) []) = []"
  by simp

lemma base64_roundtrip: "base64_decode (base64_encode bs) = bs"
proof -
  let ?sx = "\<lambda>cs. List.map_filter unbase64 (takeWhile (\<lambda>c. c \<noteq> 0x3D) cs)"
  have "decode_sextets (?sx (base64_encode bs)) = bs"
  proof (induction bs rule: base64_encode.induct)
    case 1
    show ?case by (simp only: base64_encode.simps sextets_of_Nil decode_sextets.simps)
  next
    case (2 a)
    note bd = sextet_bounds[OF unat_byte_bound[of a] unat_byte_bound[of a]]
    note rg = regroup[OF unat_byte_bound[of a] unat_byte_bound[of a] unat_byte_bound[of a]]
    have "?sx (base64_encode [a]) = [unat a div 4, unat a mod 4 * 16]"
      by (simp only: base64_encode.simps sextets_of_chars[OF bd(1)] sextets_of_chars[OF bd(5)]
            sextets_of_pad)
    then show ?case
      by (simp only: decode_sextets.simps rg) simp
  next
    case (3 a b)
    note bd = sextet_bounds[OF unat_byte_bound[of a] unat_byte_bound[of b]]
    note bd' = sextet_bounds[OF unat_byte_bound[of b] unat_byte_bound[of b]]
    note rg = regroup[OF unat_byte_bound[of a] unat_byte_bound[of b] unat_byte_bound[of b]]
    have "?sx (base64_encode [a, b]) =
            [unat a div 4, unat a mod 4 * 16 + unat b div 16, unat b mod 16 * 4]"
      by (simp only: base64_encode.simps sextets_of_chars[OF bd(1)] sextets_of_chars[OF bd(2)]
            sextets_of_chars[OF bd'(6)] sextets_of_pad)
    then show ?case
      by (simp only: decode_sextets.simps rg) simp
  next
    case (4 a b c rest)
    note bd = sextet_bounds[OF unat_byte_bound[of a] unat_byte_bound[of b]]
    note bd' = sextet_bounds[OF unat_byte_bound[of b] unat_byte_bound[of c]]
    note bd'' = sextet_bounds[OF unat_byte_bound[of c] unat_byte_bound[of c]]
    note rg = regroup[OF unat_byte_bound[of a] unat_byte_bound[of b] unat_byte_bound[of c]]
    have "?sx (base64_encode (a # b # c # rest)) =
            unat a div 4 # (unat a mod 4 * 16 + unat b div 16) #
            (unat b mod 16 * 4 + unat c div 64) # unat c mod 64 # ?sx (base64_encode rest)"
      by (simp only: base64_encode.simps append_Cons append_Nil sextets_of_chars[OF bd(1)]
            sextets_of_chars[OF bd(2)] sextets_of_chars[OF bd'(3)] sextets_of_chars[OF bd''(4)])
    then show ?case
      by (simp only: decode_sextets.simps rg 4) simp
  qed
  then show ?thesis by (simp only: base64_decode_def low_byte_base64_encode)
qed

section \<open>Counter mode\<close>

lemma length_word128_to_bytes: "length (word128_to_bytes w) = 16"
  by (simp add: word128_to_bytes_def)

lemma length_ctr_keystream: "length (ctr_keystream E c n) = 16 * n"
  by (induction n arbitrary: c) (simp_all add: length_word128_to_bytes)

lemma keystream_covers: "length d \<le> length (ctr_keystream E c ((length d + 15) div 16))"
  unfolding length_ctr_keystream by linarith

lemma length_cipher_update_final: "length (cipher_update_final rt cipher data) = length data"
  unfolding cipher_update_final_def using keystream_covers[of data] by simp

lemma xor_twice: "length d \<le> length ks \<Longrightarrow> map2 (XOR) (map2 (XOR) d ks) ks = (d :: buffer)"
proof (induction d arbitrary: ks)
  case Nil
  then show ?case by simp
next
  case (Cons x d)
  then obtain k ks' where ks: "ks = k # ks'" by (cases ks) auto
  with Cons show ?case by (simp add: xor.assoc)
qed

lemma cipher_update_final_involution:
  "cipher_update_final rt cipher (cipher_update_final rt cipher data) = data"
proof -
  have "cipher_update_final rt cipher (cipher_update_final rt cipher data) =
        map2 (XOR) (map2 (XOR) data
           (ctr_keystream (aes_block rt (fst cipher)) (snd cipher) ((length data + 15) div 16)))
           (ctr_keystream (aes_block rt (fst cipher)) (snd cipher) ((length data + 15) div 16))"
    unfolding cipher_update_final_def[of rt cipher "cipher_update_final rt cipher data"]
      length_cipher_update_final
    by (simp only: cipher_update_final_def)
  then show ?thesis using xor_twice[OF keystream_covers] by simp
qed

section \<open>Decimal digits\<close>

lemma digit_char_is_digit: "d < 10 \<Longrightarrow> is_ascii_digit (digit_char d)"
  unfolding is_ascii_digit_def digit_char_def
  by (simp add: word_le_nat_alt unat_of_nat16 del: of_nat_add)

lemma nat_toString_digits: "\<forall>c\<in>set (nat_toString n). is_ascii_digit c"
proof (induction n rule: nat_toString.induct)
  case (1 n)
  show ?case
  proof (cases "n < 10")
    case True
    then show ?thesis by (subst nat_toString.simps) (simp add: digit_char_is_digit)
  next
    case False
    then show ?thesis using 1 by (subst nat_toString.simps) (simp add: digit_char_is_digit)
  qed
qed

lemma nat_toString_length:
  "10 ^ k \<le> n \<Longrightarrow> n < 10 ^ Suc k \<Longrightarrow> length (nat_toString n) = Suc k"
proof (induction k arbitrary: n)
  case 0
  then show ?case by (subst nat_toString.simps) simp
next
  case (Suc k)
  have ge: "10 \<le> n" using Suc.prems(1) by (metis le_trans power_Suc mult.right_neutral mult_le_mono2 one_le_numeral one_le_power)
  have lo: "10 ^ k \<le> n div 10" using Suc.prems(1) by (simp add: less_eq_div_iff_mult_less_eq mult.commute)
  have hi: "n div 10 < 10 ^ Suc k" using Suc.prems(2) by (simp add: less_mult_imp_div_less mult.commute)
  show ?case using ge Suc.IH[OF lo hi] by (subst nat_toString.simps) simp
qed

section \<open>Request encryption\<close>

lemma length_next_counter: "length (next_counter s) = 16"
  by (simp add: next_counter_def randomBytes_def)

lemma object_at_alloc: "object_at (s\<lparr>heap := heap s @ [obj]\<rparr>) (length (heap s)) = obj"
  by (simp add: object_at_def)

lemma encryptRequest_unfold:
  "encryptRequest rt s requestData aesKeyString =
     (case createCipheriv (normalizeAESKey aesKeyString) (next_counter s) of
        Inl e \<Rightarrow> (Inl e, console_error ''Request encryption failed:'' e (after_encryption s requestData))
      | Inr cipher \<Rightarrow>
          (case encryptCounterRSA rt (after_encryption s requestData) (next_counter s) of
             Inl e \<Rightarrow> (Inl e, console_error ''Request encryption failed:'' e (after_encryption s requestData))
           | Inr encryptedCounter \<Rightarrow>
               (Inr \<lparr>ctr = base64_encode encryptedCounter,
                     et_payload = base64_encode
                        (cipher_update_final rt cipher (utf8_encode (jsonString_of rt s requestData)))\<rparr>,
                (after_encryption s requestData)\<lparr>lastEncryptionMetadata :=
                   Some \<lparr>counter = next_counter s, aesKey = aesKeyString,
                         timestamp = generateTimestamp s\<rparr>\<rparr>)))"
  unfolding encryptRequest_def encryptPayloadAES_def spread_with_def Let_def
    next_counter_def randomBytes_def after_encryption_def jsonString_of_def
    payloadWithTimestamp_of_def
  by (simp add: object_at_def generateTimestamp_def split: sum.splits)

lemma rsaPublicKeyPem_after_encryption [simp]:
  "rsaPublicKeyPem (after_encryption s r) = rsaPublicKeyPem s"
  by (simp add: after_encryption_def)

lemma encryptRequest_success:
  assumes "length (normalizeAESKey k) = 16"
    and "rsaPublicKeyPem s \<noteq> []"
    and "publicEncrypt rt (rsaPublicKeyPem s) (next_counter s) = Inr ec"
  shows "encryptRequest rt s r k =
     (Inr \<lparr>ctr = base64_encode ec,
           et_payload = base64_encode
             (cipher_update_final rt (request_cipher k s) (utf8_encode (jsonString_of rt s r)))\<rparr>,
      (after_encryption s r)\<lparr>lastEncryptionMetadata :=
         Some \<lparr>counter = next_counter s, aesKey = k, timestamp = generateTimestamp s\<rparr>\<rparr>)"
  using assms
  by (simp add: encryptRequest_unfold createCipheriv_def length_next_counter
      encryptCounterRSA_def request_cipher_def)

lemma encryptRequest_Inr:
  assumes "encryptRequest rt s r k = (Inr env, s')"
  shows "length (normalizeAESKey k) = 16"
    and "rsaPublicKeyPem s \<noteq> []"
    and "publicEncrypt rt (rsaPublicKeyPem s) (next_counter s) = Inr (base64_decode (ctr env))"
    and "ctr env = base64_encode (base64_decode (ctr env))"
    and "et_payload env = base64_encode
           (cipher_update_final rt (request_cipher k s) (utf8_encode (jsonString_of rt s r)))"
    and "s' = (after_encryption s r)\<lparr>lastEncryptionMetadata :=
           Some \<lparr>counter = next_counter s, aesKey = k, timestamp = generateTimestamp s\<rparr>\<rparr>"
proof -
  from assms show len: "length (normalizeAESKey k) = 16"
    by (auto simp: encryptRequest_unfold createCipheriv_def split: sum.splits if_splits)
  from assms show pem: "rsaPublicKeyPem s \<noteq> []"
    by (auto simp: encryptRequest_unfold createCipheriv_def encryptCounterRSA_def
        split: sum.splits if_splits)
  from assms len pem obtain ec where ec: "publicEncrypt rt (rsaPublicKeyPem s) (next_counter s) = Inr ec"
    by (auto simp: encryptRequest_unfold createCipheriv_def encryptCounterRSA_def length_next_counter
        split: sum.splits if_splits)
  note eq = encryptRequest_success[OF len pem ec, of r]
  from assms eq have env: "env = \<lparr>ctr = base64_encode ec,
           et_payload = base64_encode
             (cipher_update_final rt (request_cipher k s) (utf8_encode (jsonString_of rt s r)))\<rparr>"
    and s': "s' = (after_encryption s r)\<lparr>lastEncryptionMetadata :=
         Some \<lparr>counter = next_counter s, aesKey = k, timestamp = generateTimestamp s\<rparr>\<rparr>"
    by simp_all
  from env have c: "ctr env = base64_encode ec" by simp
  then have d: "base64_decode (ctr env) = ec" by (simp add: base64_roundtrip)
  show "publicEncrypt rt (rsaPublicKeyPem s) (next_counter s) = Inr (base64_decode (ctr env))"
    using ec d by simp
  show "ctr env = base64_encode (base64_decode (ctr env))" using c d by simp
  show "et_payload env = base64_encode
           (cipher_update_final rt (request_cipher k s) (utf8_encode (jsonString_of rt s r)))"
    using env by simp
  show "s' = (after_encryption s r)\<lparr>lastEncryptionMetadata :=
           Some \<lparr>counter = next_counter s, aesKey = k, timestamp = generateTimestamp s\<rparr>\<rparr>"
    by (rule s')
qed

lemma decryptResponseAES_request:
  assumes "length (normalizeAESKey k) = 16"
  shows "decryptResponseAES rt (base64_encode (cipher_update_final rt (request_cipher k s) data)) k
           (next_counter s) = Inr data"
  using assms
  by (simp add: decryptResponseAES_def createDecipheriv_def createCipheriv_def Let_def
      length_next_counter base64_roundtrip request_cipher_def[symmetric]
      cipher_update_final_involution)

text \<open>
  On every call of \<open>encryptRequest\<close> that returns an envelope, decoding
  \<open>et_payload\<close> from base64 and applying the AES-128-CTR transform with the
  normalised secret and the counter recorded in \<open>lastEncryptionMetadata\<close> gives back
  exactly the UTF-8 bytes of the serialised payload with the injected timestamp: the
  request path does not compress.
\<close>

theorem symmetric_step_recovers_json:
  assumes "encryptRequest rt s requestData aesKeyString = (Inr envelope, s')"
  shows "\<exists>metadata. lastEncryptionMetadata s' = Some metadata \<and>
           decryptResponseAES rt (et_payload envelope) aesKeyString (counter metadata) =
             Inr (utf8_encode (jsonString_of rt s requestData))"
proof -
  note f = encryptRequest_Inr[OF assms]
  have "lastEncryptionMetadata s' =
          Some \<lparr>counter = next_counter s, aesKey = aesKeyString, timestamp = generateTimestamp s\<rparr>"
    by (simp add: f(6))
  moreover have "decryptResponseAES rt (et_payload envelope) aesKeyString (next_counter s) =
             Inr (utf8_encode (jsonString_of rt s requestData))"
    by (simp only: f(5) decryptResponseAES_request[OF f(1)])
  ultimately show ?thesis by simp
qed

text \<open>
  C6. Whenever \<open>encryptRequest\<close> returns an envelope, \<open>et_payload\<close> decodes from
  base64 to as many bytes as the UTF-8 serialisation of the timestamped JSON payload
  has: counter mode adds no padding.
\<close>

theorem et_payload_length:
  assumes "encryptRequest rt s requestData aesKeyString = (Inr envelope, s')"
  shows "length (base64_decode (et_payload envelope)) =
           length (utf8_encode (jsonString_of rt s requestData))"
  by (simp only: encryptRequest_Inr(5)[OF assms] base64_roundtrip length_cipher_update_final)

text \<open>
  \<open>encryptRequest\<close> returns an envelope whenever the secret is made of ASCII
  characters and the public key is present and accepted by RSA.
\<close>

lemma encryptRequest_returns:
  assumes "\<forall>u\<in>set aesKeyString. u < 0x80"
    and "rsaPublicKeyPem s \<noteq> []"
    and "publicEncrypt rt (rsaPublicKeyPem s) (next_counter s) = Inr encryptedCounter"
  shows "\<exists>envelope s'. encryptRequest rt s requestData aesKeyString = (Inr envelope, s')"
  using encryptRequest_success[OF length_normalizeAESKey_ascii[OF assms(1)] assms(2,3)]
  by blast

subsection \<open>The example request\<close>

lemma example_secret_key_length: "length (normalizeAESKey example_secret) = 16"
  by code_simp

lemma example_publicEncrypt:
  "publicEncrypt example_runtime (rsaPublicKeyPem example_state) d = Inr (rev d)"
  by (simp add: example_runtime_def example_state_def)

lemma example_pem_nonempty: "rsaPublicKeyPem example_state \<noteq> []"
  by (simp add: example_state_def example_pem_def ascii_def)

lemma example_encryptRequest:
  "encryptRequest example_runtime example_state 0 example_secret =
     (Inr \<lparr>ctr = base64_encode (rev (next_counter example_state)),
           et_payload = base64_encode
             (cipher_update_final example_runtime (request_cipher example_secret example_state)
                (utf8_encode (jsonString_of example_runtime example_state 0)))\<rparr>,
      (after_encryption example_state 0)\<lparr>lastEncryptionMetadata :=
         Some \<lparr>counter = next_counter example_state, aesKey = example_secret,
               timestamp = generateTimestamp example_state\<rparr>\<rparr>)"
  by (rule encryptRequest_success[OF example_secret_key_length example_pem_nonempty
        example_publicEncrypt])

lemma example_timestamp: "generateTimestamp example_state = ascii ''1700000000''"
  by (simp add: generateTimestamp_def example_state_def int_toString_def nat_toString.simps
      digit_char_def ascii_def)

lemma example_payloadWithTimestamp:
  "payloadWithTimestamp_of example_state 0 =
     [(ascii ''lang'', JStr (ascii ''en_US'')),
      (hs_request_timestamp, JStr (ascii ''1700000000'')),
      (ascii ''id_listing'', JArr [JStr (ascii ''X1''), JStr (ascii ''X2'')])]"
  unfolding payloadWithTimestamp_of_def example_timestamp
  by (simp add: example_state_def object_at_def copy_properties_def hs_request_timestamp_def ascii_def)

lemma example_jsonString:
  "jsonString_of example_runtime example_state 0 =
     [0x7B, 0x22] @ ascii ''lang'' @ [0x22, 0x3A, 0x22] @ ascii ''en_US'' @ [0x22, 0x2C, 0x22]
       @ ascii ''hs_request_timestamp'' @ [0x22, 0x3A, 0x22] @ ascii ''1700000000''
       @ [0x22, 0x2C, 0x22] @ ascii ''id_listing'' @ [0x22, 0x3A, 0x5B, 0x22] @ ascii ''X1''
       @ [0x22, 0x2C, 0x22] @ ascii ''X2'' @ [0x22, 0x5D, 0x7D]"
  unfolding jsonString_of_def example_payloadWithTimestamp
  by (simp add: QuoteJSONString_def hs_request_timestamp_def ascii_def escape_unit_def
      is_high_surrogate_def is_low_surrogate_def)

text \<open>The example request returns an envelope, and the bytes are recovered there.\<close>

theorem symmetric_step_recovers_json_witness:
  "\<exists>envelope s'.
     encryptRequest example_runtime example_state 0 example_secret = (Inr envelope, s') \<and>
     (\<exists>metadata. lastEncryptionMetadata s' = Some metadata \<and>
        decryptResponseAES example_runtime (et_payload envelope) example_secret (counter metadata) =
          Inr (utf8_encode (jsonString_of example_runtime example_state 0)))"
  using symmetric_step_recovers_json[OF example_encryptRequest] example_encryptRequest by blast

text \<open>The example request satisfies the hypothesis of C6, and the conclusion holds there.\<close>

theorem et_payload_length_witness:
  "\<exists>envelope s'.
     encryptRequest example_runtime example_state 0 example_secret = (Inr envelope, s') \<and>
     length (base64_decode (et_payload envelope)) =
       length (utf8_encode (jsonString_of example_runtime example_state 0))"
  using et_payload_length[OF example_encryptRequest] example_encryptRequest by blast

section \<open>The stored encryption context\<close>

lemma get_set_property: "get_property (set_property ps k v) k = Some v"
  by (induction ps) simp_all

lemma injected_timestamp:
  "get_property (payloadWithTimestamp_of s requestData) hs_request_timestamp =
     Some (JStr (generateTimestamp s))"
  by (simp add: payloadWithTimestamp_of_def get_set_property)

lemma createCipheriv_request:
  "length (normalizeAESKey k) = 16 \<Longrightarrow>
   createCipheriv (normalizeAESKey k) (next_counter s) = Inr (request_cipher k s)"
  by (simp add: createCipheriv_def length_next_counter request_cipher_def)

text \<open>
  C7. Every call of \<open>encryptRequest\<close> that returns an envelope leaves in
  \<open>lastEncryptionMetadata\<close> exactly the record of the 16 random bytes it drew (the
  counter the cipher was created with, and the one encrypted under RSA into \<open>ctr\<close>),
  the secret string as the caller passed it, not normalised, and the timestamp it put
  into the payload. What was stored before plays no part.
\<close>

theorem encryptRequest_replaces_context:
  assumes "encryptRequest rt s requestData aesKeyString = (Inr envelope, s')"
  shows "lastEncryptionMetadata s' =
           Some \<lparr>counter = next_counter s, aesKey = aesKeyString,
                 timestamp = generateTimestamp s\<rparr>
         \<and> next_counter s = map (random_source s) [random_drawn s ..< random_drawn s + 16]
         \<and> createCipheriv (normalizeAESKey aesKeyString) (next_counter s) =
             Inr (request_cipher aesKeyString s)
         \<and> et_payload envelope =
             base64_encode (cipher_update_final rt (request_cipher aesKeyString s)
               (utf8_encode (jsonString_of rt s requestData)))
         \<and> publicEncrypt rt (rsaPublicKeyPem s) (next_counter s) = Inr (base64_decode (ctr envelope))
         \<and> get_property (payloadWithTimestamp_of s requestData) hs_request_timestamp =
             Some (JStr (generateTimestamp s))"
proof -
  note f = encryptRequest_Inr[OF assms]
  have "lastEncryptionMetadata s' =
           Some \<lparr>counter = next_counter s, aesKey = aesKeyString,
                 timestamp = generateTimestamp s\<rparr>"
    by (simp add: f(6))
  moreover have "next_counter s = map (random_source s) [random_drawn s ..< random_drawn s + 16]"
    by (simp add: next_counter_def randomBytes_def)
  ultimately show ?thesis
    using createCipheriv_request[OF f(1)] f(3) f(5) injected_timestamp by blast
qed

text \<open>The example request satisfies the hypothesis of C7, and the conclusion holds there.\<close>

theorem encryptRequest_replaces_context_witness:
  "\<exists>envelope s'.
     encryptRequest example_runtime example_state 0 example_secret = (Inr envelope, s') \<and>
     lastEncryptionMetadata s' =
       Some \<lparr>counter = next_counter example_state, aesKey = example_secret,
             timestamp = generateTimestamp example_state\<rparr>"
  using encryptRequest_replaces_context[OF example_encryptRequest] example_encryptRequest by blast

text \<open>
  C8. \<open>decryptResponse\<close> never modifies the stored context: whatever the input, and
  whether the call returns or fails, \<open>lastEncryptionMetadata\<close> afterwards is what it
  was before. The only part of the state a call may change is the console.
\<close>

theorem decryptResponse_keeps_context:
  "lastEncryptionMetadata (snd (decryptResponse rt s encryptedResponseData)) =
     lastEncryptionMetadata s
   \<and> snd (decryptResponse rt s encryptedResponseData) =
       s\<lparr>console := console (snd (decryptResponse rt s encryptedResponseData))\<rparr>"
  by (simp add: decryptResponse_def decompressData_def console_error_def
      split: option.splits sum.splits prod.splits)

section \<open>A timestamp supplied by the caller\<close>

lemma set_property_new:
  "k \<notin> fst ` set ps \<Longrightarrow> set_property ps k v = ps @ [(k, v)]"
  by (induction ps) auto

lemma copy_properties_from:
  "distinct (map fst (acc @ ps)) \<Longrightarrow>
   foldl (\<lambda>obj p. set_property obj (fst p) (snd p)) acc ps = acc @ ps"
proof (induction ps arbitrary: acc)
  case Nil
  then show ?case by simp
next
  case (Cons p ps)
  have new: "fst p \<notin> fst ` set acc" using Cons.prems by auto
  have d: "distinct (map fst ((acc @ [p]) @ ps))" using Cons.prems by simp
  show ?case
    using Cons.IH[OF d] by (simp add: set_property_new[OF new])
qed

lemma copy_properties_distinct:
  "distinct (map fst ps) \<Longrightarrow> copy_properties ps = ps"
  unfolding copy_properties_def using copy_properties_from[of "[]" ps] by simp

lemma get_property_Some_mem: "get_property ps k = Some v \<Longrightarrow> k \<in> fst ` set ps"
  by (induction ps) (auto split: if_splits)

lemma set_property_replace:
  "distinct (map fst ps) \<Longrightarrow> k \<in> fst ` set ps \<Longrightarrow>
   set_property ps k v = map (\<lambda>p. if fst p = k then (k, v) else p) ps"
proof (induction ps)
  case Nil
  then show ?case by simp
next
  case (Cons p ps)
  show ?case
  proof (cases "fst p = k")
    case True
    then have "k \<notin> fst ` set ps" using Cons.prems(1) by auto
    then have "map (\<lambda>p. if fst p = k then (k, v) else p) ps = ps"
      by (induction ps) auto
    with True show ?thesis by simp
  next
    case False
    then have "k \<in> fst ` set ps" using Cons.prems(2) by auto
    with Cons False show ?thesis by simp
  qed
qed

lemma heap_after_encryptRequest:
  "heap (snd (encryptRequest rt s requestData aesKeyString)) =
     heap s @ [payloadWithTimestamp_of s requestData]"
  by (simp add: encryptRequest_unfold console_error_def after_encryption_def
      split: sum.splits)

lemma object_at_after_encryptRequest:
  assumes "requestData < length (heap s)"
  shows "object_at (snd (encryptRequest rt s requestData aesKeyString)) requestData =
           object_at s requestData"
  using assms by (simp add: object_at_def heap_after_encryptRequest nth_append)

text \<open>
  C10. When the caller's object already has a property \<open>hs_request_timestamp\<close>, the
  object that \<open>encryptRequest\<close> serialises is the caller's object with the value of
  that property replaced by the fresh timestamp, every other property and the property
  order kept; the encrypted payload is the encryption of that text; and the caller's own
  object is the same after the call as before, whether the call returns or fails.
\<close>

theorem caller_timestamp_overridden:
  assumes "distinct (map fst (object_at s requestData))"
    and "get_property (object_at s requestData) hs_request_timestamp = Some old"
  shows "payloadWithTimestamp_of s requestData =
           map (\<lambda>p. if fst p = hs_request_timestamp
                     then (hs_request_timestamp, JStr (generateTimestamp s)) else p)
             (object_at s requestData)
         \<and> jsonString_of rt s requestData =
             JSON_stringify (number_to_json rt)
               (JObj (map (\<lambda>p. if fst p = hs_request_timestamp
                     then (hs_request_timestamp, JStr (generateTimestamp s)) else p)
             (object_at s requestData)))
         \<and> (\<forall>envelope s'. encryptRequest rt s requestData aesKeyString = (Inr envelope, s') \<longrightarrow>
               decryptResponseAES rt (et_payload envelope) aesKeyString (next_counter s) =
                 Inr (utf8_encode (jsonString_of rt s requestData)))
         \<and> object_at (snd (encryptRequest rt s requestData aesKeyString)) requestData =
             object_at s requestData"
proof -
  have mem: "hs_request_timestamp \<in> fst ` set (object_at s requestData)"
    by (rule get_property_Some_mem[OF assms(2)])
  have p: "payloadWithTimestamp_of s requestData =
           map (\<lambda>p. if fst p = hs_request_timestamp
                     then (hs_request_timestamp, JStr (generateTimestamp s)) else p)
             (object_at s requestData)"
    unfolding payloadWithTimestamp_of_def copy_properties_distinct[OF assms(1)]
    by (rule set_property_replace[OF assms(1) mem])
  have j: "jsonString_of rt s requestData =
             JSON_stringify (number_to_json rt)
               (JObj (map (\<lambda>p. if fst p = hs_request_timestamp
                     then (hs_request_timestamp, JStr (generateTimestamp s)) else p)
             (object_at s requestData)))"
    unfolding jsonString_of_def by (simp only: p)
  have e: "\<forall>envelope s'. encryptRequest rt s requestData aesKeyString = (Inr envelope, s') \<longrightarrow>
               decryptResponseAES rt (et_payload envelope) aesKeyString (next_counter s) =
                 Inr (utf8_encode (jsonString_of rt s requestData))"
  proof (intro allI impI)
    fix envelope s'
    assume run: "encryptRequest rt s requestData aesKeyString = (Inr envelope, s')"
    show "decryptResponseAES rt (et_payload envelope) aesKeyString (next_counter s) =
                 Inr (utf8_encode (jsonString_of rt s requestData))"
      by (simp only: encryptRequest_Inr(5)[OF run]
            decryptResponseAES_request[OF encryptRequest_Inr(1)[OF run]])
  qed
  have "object_at s requestData \<noteq> []" using mem by auto
  then have "requestData < length (heap s)" by (auto simp: object_at_def split: if_splits)
  then have f: "object_at (snd (encryptRequest rt s requestData aesKeyString)) requestData =
             object_at s requestData"
    by (rule object_at_after_encryptRequest)
  show ?thesis using p j e f by blast
qed

lemma example_object:
  "object_at example_state 0 =
     [(ascii ''lang'', JStr (ascii ''en_US'')), (hs_request_timestamp, JStr (ascii ''0'')),
      (ascii ''id_listing'', JArr [JStr (ascii ''X1''), JStr (ascii ''X2'')])]"
  by (simp add: object_at_def example_state_def)

lemma example_object_distinct: "distinct (map fst (object_at example_state 0))"
  unfolding example_object by (simp add: hs_request_timestamp_def ascii_def)

lemma example_object_timestamp:
  "get_property (object_at example_state 0) hs_request_timestamp = Some (JStr (ascii ''0''))"
  unfolding example_object by (simp add: hs_request_timestamp_def ascii_def)

text \<open>
  The object of the example request carries the timestamp \<open>"0"\<close>; it satisfies the
  hypotheses of C10.
\<close>

theorem caller_timestamp_overridden_witness:
  "distinct (map fst (object_at example_state 0))
   \<and> get_property (object_at example_state 0) hs_request_timestamp = Some (JStr (ascii ''0''))
   \<and> payloadWithTimestamp_of example_state 0 =
       [(ascii ''lang'', JStr (ascii ''en_US'')),
        (hs_request_timestamp, JStr (ascii ''1700000000'')),
        (ascii ''id_listing'', JArr [JStr (ascii ''X1''), JStr (ascii ''X2'')])]
   \<and> (\<exists>envelope s'.
        encryptRequest example_runtime example_state 0 example_secret = (Inr envelope, s') \<and>
        decryptResponseAES example_runtime (et_payload envelope) example_secret
          (next_counter example_state) =
            Inr (utf8_encode (jsonString_of example_runtime example_state 0)))
   \<and> object_at (snd (encryptRequest example_runtime example_state 0 example_secret)) 0 =
       object_at example_state 0"
proof -
  note t = caller_timestamp_overridden[OF example_object_distinct example_object_timestamp,
      of example_runtime example_secret]
  note imp = t[THEN conjunct2, THEN conjunct2, THEN conjunct1]
  from imp example_encryptRequest have "\<exists>envelope s'.
        encryptRequest example_runtime example_state 0 example_secret = (Inr envelope, s') \<and>
        decryptResponseAES example_runtime (et_payload envelope) example_secret
          (next_counter example_state) =
            Inr (utf8_encode (jsonString_of example_runtime example_state 0))"
    by blast
  then show ?thesis
    using t[THEN conjunct2, THEN conjunct2, THEN conjunct2] example_object_distinct
      example_object_timestamp example_payloadWithTimestamp
    by blast
qed

section \<open>The timestamp\<close>

lemma last_heap_after_encryptRequest:
  "last (heap (snd (encryptRequest rt s requestData aesKeyString))) =
     payloadWithTimestamp_of s requestData"
  by (simp add: heap_after_encryptRequest)

lemma ten_digits:
  assumes "10 ^ 12 \<le> date_now s" and "date_now s < 10 ^ 13"
  shows "generateTimestamp s = nat_toString (nat (date_now s div 1000))"
    and "length (generateTimestamp s) = 10"
    and "list_all is_ascii_digit (generateTimestamp s)"
proof -
  have nn: "\<not> date_now s div 1000 < 0" using assms(1) by simp
  show g: "generateTimestamp s = nat_toString (nat (date_now s div 1000))"
    using nn by (simp add: generateTimestamp_def int_toString_def)
  have lo: "(10::nat) ^ 9 \<le> nat (date_now s div 1000)" using assms(1) by simp
  have hi: "nat (date_now s div 1000) < (10::nat) ^ Suc 9" using assms by simp
  have "length (nat_toString (nat (date_now s div 1000))) = Suc 9"
    by (rule nat_toString_length[OF lo hi])
  then show "length (generateTimestamp s) = 10" by (simp only: g)
  have "list_all is_ascii_digit (nat_toString (nat (date_now s div 1000)))"
    using nat_toString_digits by (simp add: list_all_iff)
  then show "list_all is_ascii_digit (generateTimestamp s)" by (simp only: g)
qed

text \<open>
  C9. When the clock reads a time from \<open>10\<^sup>9\<close> seconds up to, but not including,
  \<open>10\<^sup>1\<^sup>0\<close> seconds, the object that \<open>encryptRequest\<close> builds and serialises
  carries under \<open>hs_request_timestamp\<close> a string of exactly 10 ASCII decimal digits,
  the decimal notation of the whole seconds of the clock; when the call returns, that
  string is the timestamp of the stored context, and \<open>et_payload\<close> is the encryption
  of the JSON text of that object.
\<close>

theorem encryptRequest_timestamp_ten_digits:
  assumes "10 ^ 12 \<le> date_now s" and "date_now s < 10 ^ 13"
  shows "\<exists>ts. get_property (last (heap (snd (encryptRequest rt s requestData aesKeyString))))
                hs_request_timestamp = Some (JStr ts)
              \<and> length ts = 10
              \<and> list_all is_ascii_digit ts
              \<and> ts = nat_toString (nat (date_now s div 1000))
              \<and> (\<forall>envelope s'.
                    encryptRequest rt s requestData aesKeyString = (Inr envelope, s') \<longrightarrow>
                      map_option timestamp (lastEncryptionMetadata s') = Some ts
                      \<and> decryptResponseAES rt (et_payload envelope) aesKeyString (next_counter s) =
                          Inr (utf8_encode (JSON_stringify (number_to_json rt)
                                 (JObj (last (heap s'))))))"
proof -
  let ?ts = "generateTimestamp s"
  note d = ten_digits[OF assms]
  have inj: "get_property (last (heap (snd (encryptRequest rt s requestData aesKeyString))))
                hs_request_timestamp = Some (JStr ?ts)"
    by (simp only: last_heap_after_encryptRequest injected_timestamp)
  have ret: "\<forall>envelope s'.
                    encryptRequest rt s requestData aesKeyString = (Inr envelope, s') \<longrightarrow>
                      map_option timestamp (lastEncryptionMetadata s') = Some ?ts
                      \<and> decryptResponseAES rt (et_payload envelope) aesKeyString (next_counter s) =
                          Inr (utf8_encode (JSON_stringify (number_to_json rt)
                                 (JObj (last (heap s')))))"
  proof (intro allI impI)
    fix envelope s'
    assume run: "encryptRequest rt s requestData aesKeyString = (Inr envelope, s')"
    note f = encryptRequest_Inr[OF run]
    have m: "map_option timestamp (lastEncryptionMetadata s') = Some ?ts"
      by (simp add: f(6))
    have "s' = snd (encryptRequest rt s requestData aesKeyString)" using run by simp
    then have h: "last (heap s') = payloadWithTimestamp_of s requestData"
      by (simp only: last_heap_after_encryptRequest)
    have "decryptResponseAES rt (et_payload envelope) aesKeyString (next_counter s) =
            Inr (utf8_encode (jsonString_of rt s requestData))"
      by (simp only: f(5) decryptResponseAES_request[OF f(1)])
    then have "decryptResponseAES rt (et_payload envelope) aesKeyString (next_counter s) =
                          Inr (utf8_encode (JSON_stringify (number_to_json rt)
                                 (JObj (last (heap s')))))"
      by (simp only: h jsonString_of_def)
    with m show "map_option timestamp (lastEncryptionMetadata s') = Some ?ts
                      \<and> decryptResponseAES rt (et_payload envelope) aesKeyString (next_counter s) =
                          Inr (utf8_encode (JSON_stringify (number_to_json rt)
                                 (JObj (last (heap s')))))" by (rule conjI)
  qed
  show ?thesis
    using inj d(2) d(3) d(1) ret by blast
qed

text \<open>The clock of the example state satisfies the hypotheses of C9, and the call returns.\<close>

theorem encryptRequest_timestamp_ten_digits_witness:
  "(10::int) ^ 12 \<le> date_now example_state \<and> date_now example_state < 10 ^ 13
   \<and> (\<exists>envelope s'.
         encryptRequest example_runtime example_state 0 example_secret = (Inr envelope, s')
         \<and> map_option timestamp (lastEncryptionMetadata s') = Some (ascii ''1700000000'')
         \<and> get_property (last (heap s')) hs_request_timestamp = Some (JStr (ascii ''1700000000''))
         \<and> decryptResponseAES example_runtime (et_payload envelope) example_secret
              (next_counter example_state) =
              Inr (utf8_encode (JSON_stringify (number_to_json example_runtime)
                     (JObj (last (heap s'))))))
   \<and> length (ascii ''1700000000'') = 10
   \<and> list_all is_ascii_digit (ascii ''1700000000'')"
proof -
  have a: "(10::int) ^ 12 \<le> date_now example_state" by (simp add: example_state_def)
  have b: "date_now example_state < (10::int) ^ 13" by (simp add: example_state_def)
  from encryptRequest_timestamp_ten_digits[OF a b, of example_runtime 0 example_secret]
  obtain ts where
    1: "get_property (last (heap (snd (encryptRequest example_runtime example_state 0 example_secret))))
          hs_request_timestamp = Some (JStr ts)"
    and 2: "length ts = 10" and 3: "list_all is_ascii_digit ts"
    and 5: "\<forall>envelope s'.
              encryptRequest example_runtime example_state 0 example_secret = (Inr envelope, s') \<longrightarrow>
                map_option timestamp (lastEncryptionMetadata s') = Some ts
                \<and> decryptResponseAES example_runtime (et_payload envelope) example_secret
                     (next_counter example_state) =
                    Inr (utf8_encode (JSON_stringify (number_to_json example_runtime)
                           (JObj (last (heap s')))))"
    by blast
  have "get_property (last (heap (snd (encryptRequest example_runtime example_state 0 example_secret))))
          hs_request_timestamp = Some (JStr (ascii ''1700000000''))"
    by (simp only: last_heap_after_encryptRequest injected_timestamp example_timestamp)
  with 1 have ts: "ts = ascii ''1700000000''" by simp
  obtain envelope s' where
    run: "encryptRequest example_runtime example_state 0 example_secret = (Inr envelope, s')"
    using example_encryptRequest by blast
  then have s': "s' = snd (encryptRequest example_runtime example_state 0 example_secret)" by simp
  have 6: "get_property (last (heap s')) hs_request_timestamp = Some (JStr ts)"
    using 1 by (simp only: s')
  show ?thesis
    using a b run 5 6 2 3 unfolding ts by blast
qed

section \<open>A missing or malformed public key\<close>

lemma encryptRequest_frame:
  "lastEncryptionMetadata (snd (encryptRequest rt s r k)) =
     (if isl (fst (encryptRequest rt s r k)) then lastEncryptionMetadata s
      else Some \<lparr>counter = next_counter s, aesKey = k, timestamp = generateTimestamp s\<rparr>)"
  by (simp add: encryptRequest_unfold console_error_def after_encryption_def split: sum.splits)

lemma random_drawn_after_encryptRequest:
  "random_drawn (snd (encryptRequest rt s r k)) = random_drawn s + 16"
  by (simp add: encryptRequest_unfold console_error_def after_encryption_def split: sum.splits)

lemma encryptRequest_missing_key:
  assumes "rsaPublicKeyPem s = []" and "length (normalizeAESKey k) = 16"
  shows "fst (encryptRequest rt s r k) =
           Inl (new_Error ''RSA public key is required for counter encryption'')"
  using assms
  by (simp add: encryptRequest_unfold createCipheriv_def length_next_counter encryptCounterRSA_def)

lemma encryptRequest_rsa_error:
  assumes "rsaPublicKeyPem s \<noteq> []" and "length (normalizeAESKey k) = 16"
    and "publicEncrypt rt (rsaPublicKeyPem s) (next_counter s) = Inl e"
  shows "fst (encryptRequest rt s r k) = Inl e"
  using assms
  by (simp add: encryptRequest_unfold createCipheriv_def length_next_counter encryptCounterRSA_def)

lemma encryptRequest_invalid_key:
  assumes "length (normalizeAESKey k) \<noteq> 16"
  shows "fst (encryptRequest rt s r k) = Inl invalid_key_length"
  using assms
  by (simp add: encryptRequest_unfold createCipheriv_def length_next_counter)

lemma non_ascii_key_length: "length (normalizeAESKey [0xE9]) \<noteq> 16"
  by code_simp

text \<open>
  C2, as the code has it. If the public key is missing, or malformed so that RSA
  encryption fails on every input, \<open>encryptRequest\<close> fails and leaves
  \<open>lastEncryptionMetadata\<close> exactly as it was; by then the 16 bytes of the counter
  have been drawn from the random generator. The error is that of \<open>createCipheriv\<close>,
  "Invalid key length", when the secret does not normalise to 16 bytes; otherwise it is
  the plain \<open>Error\<close> "RSA public key is required for counter encryption" when the
  key is missing, and the error of \<open>crypto.publicEncrypt\<close> when it is malformed.
\<close>

theorem missing_key_fails_after_drawing_counter:
  assumes "rsaPublicKeyPem s = [] \<or> (\<forall>d. isl (publicEncrypt rt (rsaPublicKeyPem s) d))"
  shows "fst (encryptRequest rt s requestData aesKeyString) =
           Inl (if length (normalizeAESKey aesKeyString) \<noteq> 16 then invalid_key_length
                else if rsaPublicKeyPem s = [] then
                  new_Error ''RSA public key is required for counter encryption''
                else projl (publicEncrypt rt (rsaPublicKeyPem s) (next_counter s)))
         \<and> lastEncryptionMetadata (snd (encryptRequest rt s requestData aesKeyString)) =
             lastEncryptionMetadata s
         \<and> random_drawn (snd (encryptRequest rt s requestData aesKeyString)) = random_drawn s + 16"
proof -
  have err: "fst (encryptRequest rt s requestData aesKeyString) =
           Inl (if length (normalizeAESKey aesKeyString) \<noteq> 16 then invalid_key_length
                else if rsaPublicKeyPem s = [] then
                  new_Error ''RSA public key is required for counter encryption''
                else projl (publicEncrypt rt (rsaPublicKeyPem s) (next_counter s)))"
  proof (cases "length (normalizeAESKey aesKeyString) = 16")
    case False
    then show ?thesis by (simp add: encryptRequest_invalid_key[OF False])
  next
    case len: True
    show ?thesis
    proof (cases "rsaPublicKeyPem s = []")
      case True
      then show ?thesis using len by (simp add: encryptRequest_missing_key[OF True len])
    next
      case False
      with assms have "isl (publicEncrypt rt (rsaPublicKeyPem s) (next_counter s))" by blast
      then obtain e where e: "publicEncrypt rt (rsaPublicKeyPem s) (next_counter s) = Inl e"
        by (cases "publicEncrypt rt (rsaPublicKeyPem s) (next_counter s)") auto
      show ?thesis using len False e by (simp add: encryptRequest_rsa_error[OF False len e])
    qed
  qed
  then have "isl (fst (encryptRequest rt s requestData aesKeyString))" by simp
  then have md: "lastEncryptionMetadata (snd (encryptRequest rt s requestData aesKeyString)) =
             lastEncryptionMetadata s"
    by (simp add: encryptRequest_frame)
  show ?thesis
    using err md random_drawn_after_encryptRequest[of rt s requestData aesKeyString]
    by blast
qed

text \<open>
  C2 as claimed fails: with the key missing, the call fails only after 16 random bytes
  have been drawn.
\<close>

theorem randomness_drawn_before_key_check:
  "rsaPublicKeyPem example_state_no_key = []
   \<and> fst (encryptRequest example_runtime example_state_no_key 0 example_secret) =
       Inl (JsError ''Error'' ''RSA public key is required for counter encryption'' None)
   \<and> random_drawn example_state_no_key = 0
   \<and> random_drawn (snd (encryptRequest example_runtime example_state_no_key 0 example_secret)) = 16"
proof -
  have k: "rsaPublicKeyPem example_state_no_key = []"
    by (simp add: example_state_no_key_def)
  have r: "random_drawn example_state_no_key = 0"
    by (simp add: example_state_no_key_def example_state_def)
  show ?thesis
    using k r encryptRequest_missing_key[OF k example_secret_key_length, of example_runtime 0]
      random_drawn_after_encryptRequest[of example_runtime example_state_no_key 0 example_secret]
    by (simp add: new_Error_def)
qed

lemma example_bad_key:
  "publicEncrypt example_runtime (rsaPublicKeyPem example_state_bad_key) d =
     Inl (JsError ''Error'' ''error:1E08010C:DECODER routines::unsupported''
            (Some ''ERR_OSSL_UNSUPPORTED''))"
  by (simp add: example_runtime_def example_state_bad_key_def example_pem_def ascii_def)

text \<open>
  Both hypotheses of the amended C2 are met: by the example state without a key, and by
  the example state with a key that RSA rejects; each of the three errors occurs.
\<close>

theorem missing_key_fails_after_drawing_counter_witness:
  "rsaPublicKeyPem example_state_no_key = []
   \<and> fst (encryptRequest example_runtime example_state_no_key 0 example_secret) =
       Inl (new_Error ''RSA public key is required for counter encryption'')
   \<and> fst (encryptRequest example_runtime example_state_no_key 0 [0xE9]) = Inl invalid_key_length
   \<and> lastEncryptionMetadata (snd (encryptRequest example_runtime example_state_no_key 0 example_secret)) =
       lastEncryptionMetadata example_state_no_key
   \<and> random_drawn (snd (encryptRequest example_runtime example_state_no_key 0 example_secret)) =
       random_drawn example_state_no_key + 16
   \<and> isl (publicEncrypt example_runtime (rsaPublicKeyPem example_state_bad_key)
            (next_counter example_state_bad_key))
   \<and> fst (encryptRequest example_runtime example_state_bad_key 0 example_secret) =
       Inl (JsError ''Error'' ''error:1E08010C:DECODER routines::unsupported''
              (Some ''ERR_OSSL_UNSUPPORTED''))
   \<and> lastEncryptionMetadata (snd (encryptRequest example_runtime example_state_bad_key 0 example_secret)) =
       lastEncryptionMetadata example_state_bad_key
   \<and> random_drawn (snd (encryptRequest example_runtime example_state_bad_key 0 example_secret)) =
       random_drawn example_state_bad_key + 16"
proof -
  have k: "rsaPublicKeyPem example_state_no_key = []"
    by (simp add: example_state_no_key_def)
  from k have h: "rsaPublicKeyPem example_state_no_key = [] \<or>
      (\<forall>d. isl (publicEncrypt example_runtime (rsaPublicKeyPem example_state_no_key) d))"
    by (rule disjI1)
  have bad: "\<forall>d. isl (publicEncrypt example_runtime (rsaPublicKeyPem example_state_bad_key) d)"
    by (simp add: example_bad_key)
  then have h': "rsaPublicKeyPem example_state_bad_key = [] \<or>
      (\<forall>d. isl (publicEncrypt example_runtime (rsaPublicKeyPem example_state_bad_key) d))"
    by (rule disjI2)
  have nk: "rsaPublicKeyPem example_state_bad_key \<noteq> []"
    by (simp add: example_state_bad_key_def ascii_def)
  note t1 = missing_key_fails_after_drawing_counter[OF h, of 0 example_secret]
  note t2 = missing_key_fails_after_drawing_counter[OF h, of 0 "[0xE9]"]
  note t3 = missing_key_fails_after_drawing_counter[OF h', of 0 example_secret]
  have e1: "fst (encryptRequest example_runtime example_state_no_key 0 example_secret) =
       Inl (new_Error ''RSA public key is required for counter encryption'')"
    using t1 k example_secret_key_length by simp
  have e2: "fst (encryptRequest example_runtime example_state_no_key 0 [0xE9]) = Inl invalid_key_length"
    using t2 non_ascii_key_length by simp
  have e3: "fst (encryptRequest example_runtime example_state_bad_key 0 example_secret) =
       Inl (JsError ''Error'' ''error:1E08010C:DECODER routines::unsupported''
              (Some ''ERR_OSSL_UNSUPPORTED''))"
    using t3 nk example_secret_key_length example_bad_key by simp
  show ?thesis
    using k e1 e2 e3 bad t1 t3 by blast
qed

section \<open>A secret outside ASCII\<close>

text \<open>
  C3. The claim: for any JSON-serializable payload and any non-empty secret, the
  AES-128-CTR transform with the normalised secret and the recorded counter recovers
  from \<open>et_payload\<close> the bytes of the timestamped JSON. On the one-character secret
  U+00E9 the normalised key has 17 bytes, \<open>createCipheriv\<close> rejects it, and
  \<open>encryptRequest\<close> fails in every state and for every payload: no envelope is
  returned and no context is recorded.
\<close>

theorem encryptRequest_fails_on_non_ascii_secret:
  "length (normalizeAESKey [0xE9]) = 17
   \<and> fst (encryptRequest rt s requestData [0xE9]) =
       Inl (JsError ''RangeError'' ''Invalid key length'' (Some ''ERR_CRYPTO_INVALID_KEYLEN''))
   \<and> lastEncryptionMetadata (snd (encryptRequest rt s requestData [0xE9])) =
       lastEncryptionMetadata s"
proof -
  have l: "length (normalizeAESKey [0xE9]) = 17" by code_simp
  then have n: "length (normalizeAESKey [0xE9]) \<noteq> 16" by simp
  have f: "fst (encryptRequest rt s requestData [0xE9]) = Inl invalid_key_length"
    by (rule encryptRequest_invalid_key[OF n])
  then have "isl (fst (encryptRequest rt s requestData [0xE9]))" by simp
  then have "lastEncryptionMetadata (snd (encryptRequest rt s requestData [0xE9])) =
       lastEncryptionMetadata s" by (simp add: encryptRequest_frame)
  with l f show ?thesis by (simp add: invalid_key_length_def)
qed

section \<open>Response decryption failures\<close>

lemma decryptResponse_gunzip_error:
  assumes "lastEncryptionMetadata s = Some metadata"
    and "decryptResponseAES rt x (aesKey metadata) (counter metadata) = Inr decrypted"
    and "gunzip rt decrypted = Inl e"
  shows "decryptResponse rt s x =
           (Inl e, console_error ''Response decryption failed:'' e
                     (console_error ''Gzip decompression failed:'' e s))"
  using assms by (simp add: decryptResponse_def decompressData_def)

lemma decryptResponse_parse_error:
  assumes "lastEncryptionMetadata s = Some metadata"
    and "decryptResponseAES rt x (aesKey metadata) (counter metadata) = Inr decrypted"
    and "gunzip rt decrypted = Inr decompressed"
    and "JSON_parse rt (bytesToString rt decompressed) = Inl e"
  shows "decryptResponse rt s x = (Inl e, console_error ''Response decryption failed:'' e s)"
  using assms by (simp add: decryptResponse_def decompressData_def)

lemma gunzip_not_gzip:
  "length bs < 2 \<Longrightarrow> gunzip rt bs = Inl (zlib_error ''unexpected end of file'' ''Z_BUF_ERROR'')"
  "2 \<le> length bs \<Longrightarrow> take 2 bs \<noteq> [0x1F, 0x8B] \<Longrightarrow>
     gunzip rt bs = Inl (zlib_error ''incorrect header check'' ''Z_DATA_ERROR'')"
  by (simp_all add: gunzip_def)

text \<open>
  C4, as the code has it. When a context is stored and the AES-CTR step succeeds, a
  failure of \<open>gunzip\<close> on the decrypted bytes, or of \<open>JSON.parse\<close> on the
  decompressed text, makes \<open>decryptResponse\<close> fail with that very error, unchanged:
  the error object of zlib, or the \<open>SyntaxError\<close> of \<open>JSON.parse\<close>.
\<close>

theorem corrupt_response_error_propagates:
  assumes "lastEncryptionMetadata s = Some metadata"
    and "decryptResponseAES rt encryptedResponseData (aesKey metadata) (counter metadata) =
           Inr decrypted"
    and "gunzip rt decrypted = Inl e \<or>
         (\<exists>decompressed. gunzip rt decrypted = Inr decompressed \<and>
            JSON_parse rt (bytesToString rt decompressed) = Inl e)"
  shows "fst (decryptResponse rt s encryptedResponseData) = Inl e"
  using assms(3) decryptResponse_gunzip_error[OF assms(1,2)]
    decryptResponse_parse_error[OF assms(1,2)]
  by auto

lemma example_context_facts:
  "lastEncryptionMetadata example_state_with_context = Some example_context"
  by (simp add: example_state_with_context_def)

lemma example_one_byte:
  "decryptResponseAES example_runtime (ascii ''AA=='') (aesKey example_context)
     (counter example_context) = Inr [0x24]"
  by code_simp

lemma example_empty_gzip_decrypts:
  "decryptResponseAES example_runtime example_empty_gzip_response (aesKey example_context)
     (counter example_context) = Inr empty_gzip"
  by (simp add: decryptResponseAES_def createDecipheriv_def createCipheriv_def Let_def
      example_empty_gzip_response_def base64_roundtrip cipher_update_final_involution
      example_context_def example_secret_key_length)

lemma example_gunzip_empty: "gunzip example_runtime empty_gzip = Inr []"
  by (simp add: gunzip_def example_runtime_def empty_gzip_def)

lemma example_parse_empty:
  "JSON_parse example_runtime (bytesToString example_runtime []) =
     Inl (JsError ''SyntaxError'' ''Unexpected end of JSON input'' None)"
  by (simp add: bytesToString_def example_runtime_def)

text \<open>
  C4 as claimed fails: a response that decrypts to a single byte is not gzip data, and
  the error raised is the plain \<open>Error\<close> of zlib, not an error of a kind
  \<open>CorruptResponse\<close>.
\<close>

theorem gunzip_failure_is_plain_zlib_error:
  "lastEncryptionMetadata example_state_with_context = Some example_context
   \<and> decryptResponseAES example_runtime (ascii ''AA=='') (aesKey example_context)
       (counter example_context) = Inr [0x24]
   \<and> fst (decryptResponse example_runtime example_state_with_context (ascii ''AA=='')) =
       Inl (JsError ''Error'' ''unexpected end of file'' (Some ''Z_BUF_ERROR''))
   \<and> err_name (JsError ''Error'' ''unexpected end of file'' (Some ''Z_BUF_ERROR'')) \<noteq>
       ''CorruptResponse''"
proof -
  have g: "gunzip example_runtime [0x24] = Inl (zlib_error ''unexpected end of file'' ''Z_BUF_ERROR'')"
    by (rule gunzip_not_gzip(1)) simp
  show ?thesis
    using example_context_facts example_one_byte
      decryptResponse_gunzip_error[OF example_context_facts example_one_byte g]
    by (simp add: zlib_error_def)
qed

text \<open>
  Both cases of the amended C4 occur: the response of one byte fails in \<open>gunzip\<close>,
  and the response that decrypts to the gzip stream of the empty text fails in
  \<open>JSON.parse\<close>. The two errors are of different kinds.
\<close>

theorem corrupt_response_error_propagates_witness:
  "fst (decryptResponse example_runtime example_state_with_context (ascii ''AA=='')) =
     Inl (zlib_error ''unexpected end of file'' ''Z_BUF_ERROR'')
   \<and> fst (decryptResponse example_runtime example_state_with_context example_empty_gzip_response) =
     Inl (JsError ''SyntaxError'' ''Unexpected end of JSON input'' None)"
proof -
  have g: "gunzip example_runtime [0x24] = Inl (zlib_error ''unexpected end of file'' ''Z_BUF_ERROR'')"
    by (rule gunzip_not_gzip(1)) simp
  then have h1: "gunzip example_runtime [0x24] = Inl (zlib_error ''unexpected end of file'' ''Z_BUF_ERROR'') \<or>
         (\<exists>decompressed. gunzip example_runtime [0x24] = Inr decompressed \<and>
            JSON_parse example_runtime (bytesToString example_runtime decompressed) =
              Inl (zlib_error ''unexpected end of file'' ''Z_BUF_ERROR''))"
    by (rule disjI1)
  have h2: "gunzip example_runtime empty_gzip =
              Inl (JsError ''SyntaxError'' ''Unexpected end of JSON input'' None) \<or>
         (\<exists>decompressed. gunzip example_runtime empty_gzip = Inr decompressed \<and>
            JSON_parse example_runtime (bytesToString example_runtime decompressed) =
              Inl (JsError ''SyntaxError'' ''Unexpected end of JSON input'' None))"
    using example_gunzip_empty example_parse_empty by blast
  show ?thesis
    using corrupt_response_error_propagates[OF example_context_facts example_one_byte h1]
      corrupt_response_error_propagates[OF example_context_facts example_empty_gzip_decrypts h2]
    by blast
qed

text \<open>
  C5, as the code has it. With no stored context, \<open>decryptResponse\<close> fails at once
  with the plain \<open>Error\<close> "No encryption metadata available. Must encrypt a request
  first.": the result does not depend on the input or on any primitive of the runtime,
  and the state, console included, is untouched.
\<close>

theorem decryptResponse_without_context:
  assumes "lastEncryptionMetadata s = None"
  shows "decryptResponse rt s encryptedResponseData =
           (Inl (JsError ''Error''
                   ''No encryption metadata available. Must encrypt a request first.'' None), s)"
  using assms by (simp add: decryptResponse_def no_metadata_error_def new_Error_def)

text \<open>
  C5 as claimed fails: the error raised without a context is a plain \<open>Error\<close>, not
  an error of a kind \<open>SequenceError\<close>.
\<close>

theorem no_context_error_is_plain_Error:
  "lastEncryptionMetadata example_state = None
   \<and> fst (decryptResponse example_runtime example_state (ascii ''AAAA'')) =
       Inl (JsError ''Error''
              ''No encryption metadata available. Must encrypt a request first.'' None)
   \<and> err_name (JsError ''Error''
              ''No encryption metadata available. Must encrypt a request first.'' None) \<noteq>
       ''SequenceError''"
  by (simp add: decryptResponse_def no_metadata_error_def new_Error_def example_state_def)

text \<open>
  The hypothesis of the amended C5 holds after \<open>clearEncryptionMetadata\<close> and in a
  freshly constructed instance.
\<close>

theorem decryptResponse_without_context_witness:
  "lastEncryptionMetadata (clearEncryptionMetadata example_state_with_context) = None
   \<and> lastEncryptionMetadata (constructor example_pem example_state_with_context) = None
   \<and> decryptResponse example_runtime (clearEncryptionMetadata example_state_with_context)
         (ascii ''AAAA'') =
       (Inl (JsError ''Error''
               ''No encryption metadata available. Must encrypt a request first.'' None),
        clearEncryptionMetadata example_state_with_context)
   \<and> decryptResponse example_runtime (constructor example_pem example_state_with_context)
         (ascii ''AAAA'') =
       (Inl (JsError ''Error''
               ''No encryption metadata available. Must encrypt a request first.'' None),
        constructor example_pem example_state_with_context)"
proof -
  have a: "lastEncryptionMetadata (clearEncryptionMetadata example_state_with_context) = None"
    by (simp add: clearEncryptionMetadata_def)
  have b: "lastEncryptionMetadata (constructor example_pem example_state_with_context) = None"
    by (simp add: constructor_def)
  show ?thesis
    using a b decryptResponse_without_context[OF a, of example_runtime "ascii ''AAAA''"]
      decryptResponse_without_context[OF b, of example_runtime "ascii ''AAAA''"]
    by blast
qed

end
